theory Spec2Isabelle
  imports Main "HOL-Library.Word" "HOL-Library.AList"
begin

section \<open>Strings\<close>

text \<open>
  A JavaScript string is a sequence of UTF-16 code units. \<open>lit\<close> writes an ASCII literal
  of the source as such a sequence.
\<close>

type_synonym jsstring = "16 word list"

definition lit :: "string \<Rightarrow> jsstring" where
  "lit s = map of_char s"

text \<open>
  \<open>String.prototype.trim\<close> strips the ECMAScript WhiteSpace and LineTerminator code
  points from both ends: TAB, LF, VT, FF, CR, SP, NBSP, U+1680, U+2000 to U+200A, LS, PS,
  U+202F, U+205F, U+3000 and the byte order mark. They all lie in the basic plane, so the
  test is one on code units.
\<close>

definition is_ws :: "16 word \<Rightarrow> bool" where
  "is_ws c = (c = 0x0009 \<or> c = 0x000A \<or> c = 0x000B \<or> c = 0x000C \<or> c = 0x000D
     \<or> c = 0x0020 \<or> c = 0x00A0 \<or> c = 0x1680 \<or> (0x2000 \<le> c \<and> c \<le> 0x200A)
     \<or> c = 0x2028 \<or> c = 0x2029 \<or> c = 0x202F \<or> c = 0x205F \<or> c = 0x3000
     \<or> c = 0xFEFF)"

definition trim :: "jsstring \<Rightarrow> jsstring" where
  "trim s = rev (dropWhile is_ws (rev (dropWhile is_ws s)))"

section \<open>The map of online users\<close>

text \<open>
  \<open>onlineUsers\<close> is a JavaScript \<open>Map\<close> from socket id to a user object
  \<open>{ username, socketId, joinTime }\<close>. A \<open>Map\<close> iterates in insertion order, so it is
  an association list: \<open>set\<close> replaces the value of a present key where it stands and
  appends an absent key, \<open>delete\<close> removes the key. \<open>joinTime\<close> is the \<open>Date\<close> of the
  join, in milliseconds.
\<close>

type_synonym sid = jsstring

record user =
  username :: jsstring
  socketId :: sid
  joinTime :: int

type_synonym online_users = "(sid \<times> user) list"

abbreviation Map_get :: "online_users \<Rightarrow> sid \<Rightarrow> user option" where
  "Map_get m k \<equiv> map_of m k"

abbreviation Map_set :: "online_users \<Rightarrow> sid \<Rightarrow> user \<Rightarrow> online_users" where
  "Map_set m k v \<equiv> AList.update k v m"

abbreviation Map_delete :: "online_users \<Rightarrow> sid \<Rightarrow> online_users" where
  "Map_delete m k \<equiv> AList.delete k m"

definition getOnlineUsersList :: "online_users \<Rightarrow> user list" where
  "getOnlineUsersList onlineUsers = map snd onlineUsers"

fun findUserByUsername :: "online_users \<Rightarrow> jsstring \<Rightarrow> user option" where
  "findUserByUsername [] name = None"
| "findUserByUsername ((k, u) # rest) name =
     (if username u = name then Some u else findUserByUsername rest name)"

section \<open>Outbound events\<close>

text \<open>
  What a handler sends: \<open>socket.emit\<close> goes to the socket of the handler,
  \<open>io.to(id).emit\<close> to the room named \<open>id\<close> (every socket is in the room of its own id,
  and the server puts no socket in another room), \<open>io.emit\<close> to every socket and
  \<open>socket.broadcast.emit\<close> to every socket but the handler's.
\<close>

type_synonym buffer = "8 word list"

datatype dest = ToSocket sid | ToRoom sid | ToAll | ToOthers sid

datatype out_event =
    Error jsstring
  | UserJoined jsstring sid
  | OnlineUsers "user list"
  | JoinSuccess jsstring "user list"
  | GetMedia buffer "jsstring option" "jsstring option" jsstring int
  | MediaSent jsstring "jsstring option" "jsstring option" nat
  | GetImage buffer
  | UserTyping jsstring bool
  | ReceiveMessage jsstring jsstring int
  | MessageSent jsstring jsstring int
  | UserInfo "user option" "user list"
  | UserLeft jsstring sid
  | Pong

type_synonym emission = "dest \<times> out_event"

fun delivered_to :: "dest \<Rightarrow> sid \<Rightarrow> bool" where
  "delivered_to (ToSocket s) c = (c = s)"
| "delivered_to (ToRoom r) c = (c = r)"
| "delivered_to ToAll c = True"
| "delivered_to (ToOthers s) c = (c \<noteq> s)"

definition inbox :: "sid \<Rightarrow> emission list \<Rightarrow> out_event list" where
  "inbox c ems = map snd (filter (\<lambda>e. delivered_to (fst e) c) ems)"

definition broadcastOnlineUsers :: "online_users \<Rightarrow> emission" where
  "broadcastOnlineUsers onlineUsers = (ToAll, OnlineUsers (getOnlineUsersList onlineUsers))"

section \<open>The handlers\<close>

text \<open>
  A handler takes the map, the id of its socket and the fields of the payload, and returns
  the map and the events it sends, in order. A field of the payload is \<open>None\<close> when it is
  absent and a string otherwise, so \<open>!field\<close> holds of \<open>None\<close> and of the empty string.
  Every \<open>new Date()\<close> is an argument.
\<close>

text \<open>The double quote of the template strings, U+0022.\<close>

definition dquote :: "16 word" where
  "dquote = 0x0022"

definition falsy :: "jsstring option \<Rightarrow> bool" where
  "falsy v = (case v of None \<Rightarrow> True | Some s \<Rightarrow> s = [])"

definition user_join ::
  "online_users \<Rightarrow> sid \<Rightarrow> int \<Rightarrow> jsstring option \<Rightarrow> online_users \<times> emission list" where
  "user_join onlineUsers sock now uname =
     (case uname of
        None \<Rightarrow> (onlineUsers, [(ToSocket sock, Error (lit ''Username is required''))])
      | Some name \<Rightarrow>
          if name = [] \<or> trim name = [] then
            (onlineUsers, [(ToSocket sock, Error (lit ''Username is required''))])
          else (case findUserByUsername onlineUsers name of
             Some existingUser \<Rightarrow>
               (onlineUsers, [(ToSocket sock, Error (lit ''Username is already taken''))])
           | None \<Rightarrow>
               let onlineUsers' = Map_set onlineUsers sock
                     \<lparr>username = trim name, socketId = sock, joinTime = now\<rparr>
               in (onlineUsers',
                   [(ToOthers sock, UserJoined (trim name) sock),
                    broadcastOnlineUsers onlineUsers',
                    (ToSocket sock, JoinSuccess (trim name) (getOnlineUsersList onlineUsers'))])))"

definition media_upload ::
  "online_users \<Rightarrow> sid \<Rightarrow> int \<Rightarrow> buffer \<Rightarrow> jsstring option \<Rightarrow> jsstring option \<Rightarrow> jsstring option
     \<Rightarrow> online_users \<times> emission list" where
  "media_upload onlineUsers sock now buf targetUser mediaType filename =
     (case Map_get onlineUsers sock of
        None \<Rightarrow> (onlineUsers, [(ToSocket sock, Error (lit ''Please join with a username first''))])
      | Some sender \<Rightarrow>
          (case targetUser of
             None \<Rightarrow> (onlineUsers, [(ToSocket sock, Error (lit ''Target user is required''))])
           | Some target \<Rightarrow>
               if target = [] \<or> trim target = [] then
                 (onlineUsers, [(ToSocket sock, Error (lit ''Target user is required''))])
               else (case findUserByUsername onlineUsers (trim target) of
                  None \<Rightarrow>
                    (onlineUsers,
                     [(ToSocket sock,
                         Error (lit ''User '' @ [dquote] @ target @ [dquote]
                                  @ lit '' is not online''))])
                | Some targetUserObj \<Rightarrow>
                    (onlineUsers,
                     [(ToRoom (socketId targetUserObj),
                         GetMedia buf mediaType filename (username sender) now),
                      (ToSocket sock, MediaSent target filename mediaType (length buf))]))))"

definition image_upload ::
  "online_users \<Rightarrow> sid \<Rightarrow> buffer \<Rightarrow> jsstring \<Rightarrow> online_users \<times> emission list" where
  "image_upload onlineUsers sock buf ident =
     (let targetUser = (case findUserByUsername onlineUsers ident of
                          Some u \<Rightarrow> Some u
                        | None \<Rightarrow> Map_get onlineUsers ident)
      in case targetUser of
           Some u \<Rightarrow> (onlineUsers, [(ToRoom (socketId u), GetImage buf)])
         | None \<Rightarrow> (onlineUsers, [(ToRoom ident, GetImage buf)]))"

definition typing ::
  "bool \<Rightarrow> online_users \<Rightarrow> sid \<Rightarrow> jsstring option \<Rightarrow> online_users \<times> emission list" where
  "typing isTyping onlineUsers sock targetUser =
     (case Map_get onlineUsers sock of
        None \<Rightarrow> (onlineUsers, [])
      | Some sender \<Rightarrow>
          if falsy targetUser then (onlineUsers, [])
          else (case findUserByUsername onlineUsers (the targetUser) of
             None \<Rightarrow> (onlineUsers, [])
           | Some u \<Rightarrow>
               (onlineUsers, [(ToRoom (socketId u), UserTyping (username sender) isTyping)])))"

definition typing_start ::
  "online_users \<Rightarrow> sid \<Rightarrow> jsstring option \<Rightarrow> online_users \<times> emission list" where
  "typing_start = typing True"

definition typing_stop ::
  "online_users \<Rightarrow> sid \<Rightarrow> jsstring option \<Rightarrow> online_users \<times> emission list" where
  "typing_stop = typing False"

definition send_message ::
  "online_users \<Rightarrow> sid \<Rightarrow> int \<Rightarrow> int \<Rightarrow> jsstring option \<Rightarrow> jsstring option
     \<Rightarrow> online_users \<times> emission list" where
  "send_message onlineUsers sock now1 now2 targetUser message =
     (case Map_get onlineUsers sock of
        None \<Rightarrow> (onlineUsers, [(ToSocket sock, Error (lit ''Please join with a username first''))])
      | Some sender \<Rightarrow>
          if falsy targetUser \<or> falsy message then
            (onlineUsers, [(ToSocket sock, Error (lit ''Target user and message are required''))])
          else (case findUserByUsername onlineUsers (trim (the targetUser)) of
             None \<Rightarrow>
               (onlineUsers,
                [(ToSocket sock,
                    Error (lit ''User '' @ [dquote] @ the targetUser @ [dquote]
                             @ lit '' is not online''))])
           | Some targetUserObj \<Rightarrow>
               (onlineUsers,
                [(ToRoom (socketId targetUserObj),
                    ReceiveMessage (username sender) (trim (the message)) now1),
                 (ToSocket sock, MessageSent (the targetUser) (trim (the message)) now2)])))"

definition get_user_info ::
  "online_users \<Rightarrow> sid \<Rightarrow> bool \<Rightarrow> online_users \<times> emission list" where
  "get_user_info onlineUsers sock callback =
     (if callback then
        (onlineUsers,
         [(ToSocket sock, UserInfo (Map_get onlineUsers sock) (getOnlineUsersList onlineUsers))])
      else (onlineUsers, []))"

definition disconnect ::
  "online_users \<Rightarrow> sid \<Rightarrow> online_users \<times> emission list" where
  "disconnect onlineUsers sock =
     (case Map_get onlineUsers sock of
        Some u \<Rightarrow>
          let onlineUsers' = Map_delete onlineUsers sock
          in (onlineUsers',
              [(ToOthers sock, UserLeft (username u) sock), broadcastOnlineUsers onlineUsers'])
      | None \<Rightarrow> (onlineUsers, []))"

definition ping ::
  "online_users \<Rightarrow> sid \<Rightarrow> online_users \<times> emission list" where
  "ping onlineUsers sock = (onlineUsers, [(ToSocket sock, Pong)])"

section \<open>The periodic cleanup\<close>

text \<open>
  \<open>io.sockets.sockets\<close> maps the id of a socket the transport knows to the socket;
  \<open>sockets k\<close> is \<open>None\<close> for an unknown id and otherwise the \<open>connected\<close> flag of the
  socket. The loop visits the entries the map has when the sweep starts, in order; it
  deletes only the entry it is visiting, so the entries still to visit are not touched.
\<close>

definition staleThreshold :: int where
  "staleThreshold = 5 * 60 * 1000"

definition gone :: "(sid \<Rightarrow> bool option) \<Rightarrow> sid \<Rightarrow> bool" where
  "gone sockets k = (case sockets k of None \<Rightarrow> True | Some connected \<Rightarrow> \<not> connected)"

fun cleanup_loop ::
  "int \<Rightarrow> (sid \<Rightarrow> bool option) \<Rightarrow> (sid \<times> user) list \<Rightarrow> online_users \<Rightarrow> online_users \<times> emission list" where
  "cleanup_loop now sockets [] onlineUsers = (onlineUsers, [])"
| "cleanup_loop now sockets ((k, u) # rest) onlineUsers =
     (if now - joinTime u > staleThreshold then
        (if gone sockets k then
           (let onlineUsers' = Map_delete onlineUsers k;
                r = cleanup_loop now sockets rest onlineUsers'
            in (fst r, broadcastOnlineUsers onlineUsers' # snd r))
         else cleanup_loop now sockets rest onlineUsers)
      else cleanup_loop now sockets rest onlineUsers)"

definition cleanup ::
  "online_users \<Rightarrow> int \<Rightarrow> (sid \<Rightarrow> bool option) \<Rightarrow> online_users \<times> emission list" where
  "cleanup onlineUsers now sockets = cleanup_loop now sockets onlineUsers onlineUsers"

section \<open>Runs of the server\<close>

datatype in_event =
    UserJoin sid int "jsstring option"
  | MediaUpload sid int buffer "jsstring option" "jsstring option" "jsstring option"
  | ImageUpload sid buffer jsstring
  | TypingStart sid "jsstring option"
  | TypingStop sid "jsstring option"
  | SendMessage sid int int "jsstring option" "jsstring option"
  | GetUserInfo sid bool
  | Disconnect sid
  | Ping sid
  | Cleanup int "sid \<Rightarrow> bool option"

fun handle ::
  "online_users \<Rightarrow> in_event \<Rightarrow> online_users \<times> emission list" where
  "handle m (UserJoin sock now uname) = user_join m sock now uname"
| "handle m (MediaUpload sock now buf targetUser mediaType filename) =
     media_upload m sock now buf targetUser mediaType filename"
| "handle m (ImageUpload sock buf ident) = image_upload m sock buf ident"
| "handle m (TypingStart sock targetUser) = typing_start m sock targetUser"
| "handle m (TypingStop sock targetUser) = typing_stop m sock targetUser"
| "handle m (SendMessage sock now1 now2 targetUser message) =
     send_message m sock now1 now2 targetUser message"
| "handle m (GetUserInfo sock callback) = get_user_info m sock callback"
| "handle m (Disconnect sock) = disconnect m sock"
| "handle m (Ping sock) = ping m sock"
| "handle m (Cleanup now sockets) = cleanup m now sockets"

text \<open>The map after a sequence of events, starting from the empty map of a fresh server.\<close>

fun run :: "online_users \<Rightarrow> in_event list \<Rightarrow> online_users" where
  "run m [] = m"
| "run m (e # es) = run (fst (handle m e)) es"

definition registry_after :: "in_event list \<Rightarrow> online_users" where
  "registry_after es = run [] es"

section \<open>What holds of every map the server reaches\<close>

text \<open>
  The keys of a \<open>Map\<close> are distinct. Every user object is stored under its own socket id,
  with a name that is not empty and that \<open>trim\<close> leaves as it is.
\<close>

definition user_ok :: "sid \<times> user \<Rightarrow> bool" where
  "user_ok p = (socketId (snd p) = fst p \<and> username (snd p) \<noteq> []
     \<and> trim (username (snd p)) = username (snd p))"

definition registry_ok :: "online_users \<Rightarrow> bool" where
  "registry_ok m = (distinct (map fst m) \<and> list_all user_ok m)"

text \<open>The entries a sweep removes: joined more than five minutes ago, and the socket gone.\<close>

definition reaped ::
  "int \<Rightarrow> (sid \<Rightarrow> bool option) \<Rightarrow> sid \<times> user \<Rightarrow> bool" where
  "reaped now sockets p = (now - joinTime (snd p) > 5 * 60 * 1000 \<and> gone sockets (fst p))"

text \<open>
  The events that can touch the record of socket \<open>c\<close>: a join from \<open>c\<close> itself, and the
  two that remove, the disconnect of \<open>c\<close> and a sweep.
\<close>

fun own_join :: "sid \<Rightarrow> in_event \<Rightarrow> bool" where
  "own_join c (UserJoin sock now uname) = (sock = c)"
| "own_join c e = False"

fun may_remove :: "sid \<Rightarrow> in_event \<Rightarrow> bool" where
  "may_remove c (Disconnect sock) = (sock = c)"
| "may_remove c (Cleanup now sockets) = True"
| "may_remove c e = False"

section \<open>Trimming\<close>

lemma dropWhile_rev_hd:
  assumes "xs \<noteq> []" "\<not> P (hd xs)"
  shows "rev (dropWhile P (rev xs)) \<noteq> [] \<and> hd (rev (dropWhile P (rev xs))) = hd xs"
proof -
  obtain x ys where xs: "xs = x # ys" using assms(1) by (cases xs) auto
  then have "\<not> P x" using assms(2) by simp
  then have "dropWhile P (rev ys @ [x]) = dropWhile P (rev ys) @ [x]"
    by (induction "rev ys" arbitrary: ys) (auto simp: dropWhile_append)
  then show ?thesis using xs by simp
qed

lemma trim_no_leading_ws: "trim s = [] \<or> \<not> is_ws (hd (trim s))"
proof (cases "dropWhile is_ws s = []")
  case True show ?thesis unfolding trim_def True by simp
next
  case False
  then have "\<not> is_ws (hd (dropWhile is_ws s))" by (simp add: hd_dropWhile)
  with False show ?thesis using dropWhile_rev_hd [of "dropWhile is_ws s" is_ws]
    by (simp add: trim_def)
qed

lemma trim_idem: "trim (trim s) = trim s"
proof -
  have a: "dropWhile is_ws (trim s) = trim s"
    using trim_no_leading_ws [of s] by (cases "trim s") auto
  have b: "dropWhile is_ws (rev (trim s)) = rev (trim s)"
    by (simp add: trim_def)
  show ?thesis
    unfolding trim_def [of "trim s"] a b by simp
qed

text \<open>Every handler keeps the map well formed, so every map the server reaches is.\<close>

lemma list_all_update: "list_all P m \<Longrightarrow> P (k, v) \<Longrightarrow> list_all P (AList.update k v m)"
  by (induction m) auto

lemma list_all_delete: "list_all P m \<Longrightarrow> list_all P (AList.delete k m)"
  by (induction m) auto

lemma registry_ok_update:
  "registry_ok m \<Longrightarrow> user_ok (k, v) \<Longrightarrow> registry_ok (AList.update k v m)"
  by (simp add: registry_ok_def distinct_update list_all_update)

lemma registry_ok_delete: "registry_ok m \<Longrightarrow> registry_ok (AList.delete k m)"
  by (simp add: registry_ok_def distinct_delete list_all_delete)

lemma user_join_ok: "registry_ok m \<Longrightarrow> registry_ok (fst (user_join m sock now uname))"
  by (auto simp: user_join_def Let_def user_ok_def trim_idem intro!: registry_ok_update
      split: option.splits)

lemma cleanup_loop_ok: "registry_ok m \<Longrightarrow> registry_ok (fst (cleanup_loop now sockets rest m))"
  by (induction now sockets rest m rule: cleanup_loop.induct)
     (auto simp: Let_def registry_ok_delete)

lemma handle_ok: "registry_ok m \<Longrightarrow> registry_ok (fst (handle m e))"
  by (cases e)
     (auto simp: user_join_ok cleanup_loop_ok cleanup_def media_upload_def image_upload_def
        typing_start_def typing_stop_def typing_def send_message_def get_user_info_def
        disconnect_def ping_def Let_def registry_ok_delete split: option.splits)

lemma run_ok: "registry_ok m \<Longrightarrow> registry_ok (run m es)"
  by (induction es arbitrary: m) (auto simp: handle_ok)

lemma registry_after_ok: "registry_ok (registry_after es)"
proof -
  have "registry_ok []" by (simp add: registry_ok_def)
  then show ?thesis unfolding registry_after_def by (rule run_ok)
qed

section \<open>Messages\<close>

lemma find_None_update:
  "findUserByUsername m n = None \<Longrightarrow>
   findUserByUsername (AList.update k v m) n = (if username v = n then Some v else None)"
  by (induction m) (auto split: if_splits)

lemma inbox_simps:
  "inbox c [] = []"
  "inbox c ((d, e) # ems) = (if delivered_to d c then e # inbox c ems else inbox c ems)"
  by (simp_all add: inbox_def)

lemma lit_trims:
  "trim (lit ''alice'') = lit ''alice''" "trim (lit ''bob'') = lit ''bob''"
  "trim (lit ''hi'') = lit ''hi''"
  "lit ''alice'' \<noteq> []" "lit ''bob'' \<noteq> []" "lit ''hi'' \<noteq> []" "lit ''alice'' \<noteq> lit ''bob''"
  by (simp_all add: lit_def trim_def is_ws_def)

text \<open>
  On a map where neither name is in use, the exchange goes as expected: sockets \<open>A\<close> and
  \<open>B\<close> join as alice and bob, then \<open>A\<close> sends the message hi to bob. \<open>B\<close> receives one
  \<open>receive_message\<close> from alice with the text hi, \<open>A\<close> receives one \<open>message_sent\<close> to bob
  with the text hi, and no other socket receives anything.
\<close>


theorem alice_to_bob:
  fixes A B :: sid and m0 :: online_users and t1 t2 n1 n2 :: int
  assumes "A \<noteq> B"
    and "findUserByUsername m0 (lit ''alice'') = None"
    and "findUserByUsername m0 (lit ''bob'') = None"
  defines "m1 \<equiv> fst (user_join m0 A t1 (Some (lit ''alice'')))"
  defines "m2 \<equiv> fst (user_join m1 B t2 (Some (lit ''bob'')))"
  defines "ems \<equiv> snd (send_message m2 A n1 n2 (Some (lit ''bob'')) (Some (lit ''hi'')))"
  shows "inbox B ems = [ReceiveMessage (lit ''alice'') (lit ''hi'') n1]
       \<and> inbox A ems = [MessageSent (lit ''bob'') (lit ''hi'') n2]
       \<and> (\<forall>c. c \<noteq> A \<and> c \<noteq> B \<longrightarrow> inbox c ems = [])"
proof -
  let ?a = "\<lparr>username = lit ''alice'', socketId = A, joinTime = t1\<rparr>"
  let ?b = "\<lparr>username = lit ''bob'', socketId = B, joinTime = t2\<rparr>"
  have m1: "m1 = AList.update A ?a m0"
    using assms(2) unfolding m1_def by (simp add: user_join_def Let_def lit_trims)
  have f1: "findUserByUsername m1 (lit ''bob'') = None"
    unfolding m1 using assms(3) by (simp add: find_None_update lit_trims)
  have m2: "m2 = AList.update B ?b m1"
    using f1 unfolding m2_def by (simp add: user_join_def Let_def lit_trims)
  have f2: "findUserByUsername m2 (lit ''bob'') = Some ?b"
    unfolding m2 using f1 by (simp add: find_None_update)
  have g2: "map_of m2 A = Some ?a"
    unfolding m2 m1 using assms(1) by (simp add: update_conv')
  have ems: "ems = [(ToRoom B, ReceiveMessage (lit ''alice'') (lit ''hi'') n1),
                    (ToSocket A, MessageSent (lit ''bob'') (lit ''hi'') n2)]"
    using f2 g2 unfolding ems_def by (simp add: send_message_def falsy_def lit_trims)
  show ?thesis unfolding ems using assms(1) by (simp add: inbox_simps)
qed

theorem alice_to_bob_witness:
  "inbox (lit ''B'') (snd (send_message
       (fst (user_join (fst (user_join [] (lit ''A'') 10 (Some (lit ''alice'')))) (lit ''B'') 20
          (Some (lit ''bob''))))
       (lit ''A'') 30 31 (Some (lit ''bob'')) (Some (lit ''hi''))))
     = [ReceiveMessage (lit ''alice'') (lit ''hi'') 30]
   \<and> inbox (lit ''A'') (snd (send_message
       (fst (user_join (fst (user_join [] (lit ''A'') 10 (Some (lit ''alice'')))) (lit ''B'') 20
          (Some (lit ''bob''))))
       (lit ''A'') 30 31 (Some (lit ''bob'')) (Some (lit ''hi''))))
     = [MessageSent (lit ''bob'') (lit ''hi'') 31]
   \<and> inbox (lit ''C'') (snd (send_message
       (fst (user_join (fst (user_join [] (lit ''A'') 10 (Some (lit ''alice'')))) (lit ''B'') 20
          (Some (lit ''bob''))))
       (lit ''A'') 30 31 (Some (lit ''bob'')) (Some (lit ''hi''))))
     = []"
proof -
  have ne: "lit ''A'' \<noteq> lit ''B''" "lit ''C'' \<noteq> lit ''A''" "lit ''C'' \<noteq> lit ''B''"
    by (simp_all add: lit_def)
  from alice_to_bob [where A = "lit ''A''" and B = "lit ''B''" and ?m0.0 = "[]"
      and ?t1.0 = 10 and ?t2.0 = 20 and ?n1.0 = 30 and ?n2.0 = 31, OF ne(1)]
  show ?thesis using ne by simp
qed


text \<open>
  C5. With alice and bob joined on sockets \<open>A\<close> and \<open>B\<close>, the message of \<open>A\<close> to bob need
  not reach \<open>B\<close>. Socket \<open>C\<close> joined before them as carol and joins again as bob with a
  leading space: the check for a taken name misses it, the record of \<open>C\<close> keeps its first
  place in the map under the name bob, and the lookup by name finds it before the record
  of \<open>B\<close>. The message goes to \<open>C\<close>, and \<open>B\<close> receives nothing.
\<close>

theorem message_to_bob_misrouted:
  "Map_get (registry_after
       [UserJoin (lit ''C'') 1 (Some (lit ''carol'')), UserJoin (lit ''A'') 2 (Some (lit ''alice'')),
        UserJoin (lit ''B'') 3 (Some (lit ''bob'')), UserJoin (lit ''C'') 4 (Some (lit '' bob''))])
     (lit ''A'') = Some \<lparr>username = lit ''alice'', socketId = lit ''A'', joinTime = 2\<rparr>
 \<and> Map_get (registry_after
       [UserJoin (lit ''C'') 1 (Some (lit ''carol'')), UserJoin (lit ''A'') 2 (Some (lit ''alice'')),
        UserJoin (lit ''B'') 3 (Some (lit ''bob'')), UserJoin (lit ''C'') 4 (Some (lit '' bob''))])
     (lit ''B'') = Some \<lparr>username = lit ''bob'', socketId = lit ''B'', joinTime = 3\<rparr>
 \<and> snd (send_message (registry_after
       [UserJoin (lit ''C'') 1 (Some (lit ''carol'')), UserJoin (lit ''A'') 2 (Some (lit ''alice'')),
        UserJoin (lit ''B'') 3 (Some (lit ''bob'')), UserJoin (lit ''C'') 4 (Some (lit '' bob''))])
       (lit ''A'') 30 31 (Some (lit ''bob'')) (Some (lit ''hi''))) =
     [(ToRoom (lit ''C''), ReceiveMessage (lit ''alice'') (lit ''hi'') 30),
      (ToSocket (lit ''A''), MessageSent (lit ''bob'') (lit ''hi'') 31)]
 \<and> inbox (lit ''B'') (snd (send_message (registry_after
       [UserJoin (lit ''C'') 1 (Some (lit ''carol'')), UserJoin (lit ''A'') 2 (Some (lit ''alice'')),
        UserJoin (lit ''B'') 3 (Some (lit ''bob'')), UserJoin (lit ''C'') 4 (Some (lit '' bob''))])
       (lit ''A'') 30 31 (Some (lit ''bob'')) (Some (lit ''hi'')))) = []
 \<and> inbox (lit ''C'') (snd (send_message (registry_after
       [UserJoin (lit ''C'') 1 (Some (lit ''carol'')), UserJoin (lit ''A'') 2 (Some (lit ''alice'')),
        UserJoin (lit ''B'') 3 (Some (lit ''bob'')), UserJoin (lit ''C'') 4 (Some (lit '' bob''))])
       (lit ''A'') 30 31 (Some (lit ''bob'')) (Some (lit ''hi'')))) =
     [ReceiveMessage (lit ''alice'') (lit ''hi'') 30]"
proof -
  have m: "registry_after
       [UserJoin (lit ''C'') 1 (Some (lit ''carol'')), UserJoin (lit ''A'') 2 (Some (lit ''alice'')),
        UserJoin (lit ''B'') 3 (Some (lit ''bob'')), UserJoin (lit ''C'') 4 (Some (lit '' bob''))] =
     [(lit ''C'', \<lparr>username = lit ''bob'', socketId = lit ''C'', joinTime = 4\<rparr>),
      (lit ''A'', \<lparr>username = lit ''alice'', socketId = lit ''A'', joinTime = 2\<rparr>),
      (lit ''B'', \<lparr>username = lit ''bob'', socketId = lit ''B'', joinTime = 3\<rparr>)]"
    by (simp add: registry_after_def user_join_def Let_def lit_def trim_def is_ws_def)
  show ?thesis unfolding m
    by (simp add: send_message_def falsy_def lit_def trim_def is_ws_def inbox_simps)
qed

lemma find_Some_mem:
  "findUserByUsername m n = Some u \<Longrightarrow> \<exists>k. (k, u) \<in> set m \<and> username u = n"
  by (induction m) (auto split: if_splits)

text \<open>
  C6. A joined sender sends a message to a target that no user has as name, once trimmed:
  the map is unchanged and no other socket receives anything; when target and text are
  both non-empty, as the handler requires before it resolves the target, the only event is
  the error saying the target is not online, sent to the sender.
\<close>

theorem send_message_recipient_not_found:
  assumes "Map_get m sock = Some sender"
    and "findUserByUsername m (trim target) = None"
  shows "(target \<noteq> [] \<and> msg \<noteq> [] \<longrightarrow>
            send_message m sock n1 n2 (Some target) (Some msg) =
              (m, [(ToSocket sock,
                    Error (lit ''User '' @ [0x22] @ target @ [0x22] @ lit '' is not online''))]))
       \<and> fst (send_message m sock n1 n2 (Some target) message) = m
       \<and> (\<forall>c. c \<noteq> sock \<longrightarrow>
             inbox c (snd (send_message m sock n1 n2 (Some target) message)) = [])"
  using assms by (simp add: send_message_def falsy_def dquote_def inbox_simps)

theorem send_message_recipient_not_found_witness:
  "send_message [(lit ''A'', \<lparr>username = lit ''alice'', socketId = lit ''A'', joinTime = 10\<rparr>)]
       (lit ''A'') 30 31 (Some (lit ''ghost'')) (Some (lit ''hi'')) =
     ([(lit ''A'', \<lparr>username = lit ''alice'', socketId = lit ''A'', joinTime = 10\<rparr>)],
      [(ToSocket (lit ''A''),
        Error (lit ''User '' @ [0x22] @ lit ''ghost'' @ [0x22] @ lit '' is not online''))])
   \<and> inbox (lit ''B'')
        (snd (send_message
           [(lit ''A'', \<lparr>username = lit ''alice'', socketId = lit ''A'', joinTime = 10\<rparr>)]
           (lit ''A'') 30 31 (Some (lit ''ghost'')) (Some (lit ''hi'')))) = []"
proof -
  let ?m = "[(lit ''A'', \<lparr>username = lit ''alice'', socketId = lit ''A'', joinTime = 10\<rparr>)]"
  have a: "Map_get ?m (lit ''A'') =
      Some \<lparr>username = lit ''alice'', socketId = lit ''A'', joinTime = 10\<rparr>" by simp
  have b: "lit ''ghost'' \<noteq> []" "lit ''hi'' \<noteq> []" by (simp_all add: lit_def)
  have c: "findUserByUsername ?m (trim (lit ''ghost'')) = None"
    by (simp add: lit_def trim_def is_ws_def)
  have d: "lit ''B'' \<noteq> lit ''A''" by (simp add: lit_def)
  from send_message_recipient_not_found [OF a c, where msg = "lit ''hi''" and ?n1.0 = 30
      and ?n2.0 = 31 and message = "Some (lit ''hi'')"] b d
  show ?thesis by (simp add: inbox_simps)
qed

text \<open>
  C7. The legacy upload addresses the user named \<open>id\<close> when there is one, else the user
  whose socket id is \<open>id\<close>, else the room \<open>id\<close> itself, without a check; in no case does it
  send an error.
\<close>

theorem image_upload_three_tiers:
  "(findUserByUsername m ident = Some u \<longrightarrow>
      image_upload m sock buf ident = (m, [(ToRoom (socketId u), GetImage buf)]))
 \<and> (findUserByUsername m ident = None \<and> Map_get m ident = Some u \<longrightarrow>
      image_upload m sock buf ident = (m, [(ToRoom (socketId u), GetImage buf)]))
 \<and> (findUserByUsername m ident = None \<and> Map_get m ident = None \<longrightarrow>
      image_upload m sock buf ident = (m, [(ToRoom ident, GetImage buf)]))
 \<and> (\<forall>d txt. (d, Error txt) \<notin> set (snd (image_upload m sock buf ident)))"
  by (auto simp: image_upload_def split: option.splits)

theorem image_upload_three_tiers_witness:
  "image_upload [(lit ''B'', \<lparr>username = lit ''bob'', socketId = lit ''B'', joinTime = 10\<rparr>)]
      (lit ''X'') [1, 2] (lit ''bob'') =
     ([(lit ''B'', \<lparr>username = lit ''bob'', socketId = lit ''B'', joinTime = 10\<rparr>)],
      [(ToRoom (lit ''B''), GetImage [1, 2])])
 \<and> image_upload [(lit ''B'', \<lparr>username = lit ''bob'', socketId = lit ''B'', joinTime = 10\<rparr>)]
      (lit ''X'') [1, 2] (lit ''B'') =
     ([(lit ''B'', \<lparr>username = lit ''bob'', socketId = lit ''B'', joinTime = 10\<rparr>)],
      [(ToRoom (lit ''B''), GetImage [1, 2])])
 \<and> image_upload [(lit ''B'', \<lparr>username = lit ''bob'', socketId = lit ''B'', joinTime = 10\<rparr>)]
      (lit ''X'') [1, 2] (lit ''Z'') =
     ([(lit ''B'', \<lparr>username = lit ''bob'', socketId = lit ''B'', joinTime = 10\<rparr>)],
      [(ToRoom (lit ''Z''), GetImage [1, 2])])"
proof -
  let ?u = "\<lparr>username = lit ''bob'', socketId = lit ''B'', joinTime = 10\<rparr>"
  let ?m = "[(lit ''B'', ?u)]"
  have a: "findUserByUsername ?m (lit ''bob'') = Some ?u" by simp
  have b: "findUserByUsername ?m (lit ''B'') = None \<and> Map_get ?m (lit ''B'') = Some ?u"
    by (simp add: lit_def)
  have c: "findUserByUsername ?m (lit ''Z'') = None \<and> Map_get ?m (lit ''Z'') = None"
    by (simp add: lit_def)
  from image_upload_three_tiers [of ?m "lit ''bob''" ?u "lit ''X''" "[1, 2]"] a
       image_upload_three_tiers [of ?m "lit ''B''" ?u "lit ''X''" "[1, 2]"] b
       image_upload_three_tiers [of ?m "lit ''Z''" ?u "lit ''X''" "[1, 2]"] c
  show ?thesis by simp
qed

text \<open>
  C10. A message that reaches its target carries the trimmed text, both in the
  \<open>receive_message\<close> of the recipient and in the \<open>message_sent\<close> of the sender.
\<close>

theorem send_message_trims_text:
  assumes "Map_get m sock = Some sender"
    and "target \<noteq> []" and "msg \<noteq> []"
    and "findUserByUsername m (trim target) = Some u"
  shows "snd (send_message m sock n1 n2 (Some target) (Some msg)) =
           [(ToRoom (socketId u), ReceiveMessage (username sender) (trim msg) n1),
            (ToSocket sock, MessageSent target (trim msg) n2)]"
  using assms by (simp add: send_message_def falsy_def)

theorem send_message_trims_text_witness:
  "snd (send_message
      [(lit ''A'', \<lparr>username = lit ''alice'', socketId = lit ''A'', joinTime = 10\<rparr>),
       (lit ''B'', \<lparr>username = lit ''bob'', socketId = lit ''B'', joinTime = 20\<rparr>)]
      (lit ''A'') 30 31 (Some (lit '' bob'')) (Some (lit ''  hi there ''))) =
     [(ToRoom (lit ''B''), ReceiveMessage (lit ''alice'') (lit ''hi there'') 30),
      (ToSocket (lit ''A''), MessageSent (lit '' bob'') (lit ''hi there'') 31)]"
proof -
  let ?a = "\<lparr>username = lit ''alice'', socketId = lit ''A'', joinTime = 10\<rparr>"
  let ?b = "\<lparr>username = lit ''bob'', socketId = lit ''B'', joinTime = 20\<rparr>"
  let ?m = "[(lit ''A'', ?a), (lit ''B'', ?b)]"
  have a: "Map_get ?m (lit ''A'') = Some ?a" by simp
  have b: "lit '' bob'' \<noteq> []" "lit ''  hi there '' \<noteq> []" by (simp_all add: lit_def)
  have c: "findUserByUsername ?m (trim (lit '' bob'')) = Some ?b"
    by (simp add: lit_def trim_def is_ws_def)
  have d: "trim (lit ''  hi there '') = lit ''hi there''"
    by (simp add: lit_def trim_def is_ws_def)
  from send_message_trims_text [OF a b c, of 30 31] d show ?thesis by simp
qed

section \<open>Joining and cleaning up\<close>

lemma untrimmed_name_free:
  assumes "registry_ok m" and "trim name \<noteq> name"
  shows "findUserByUsername m name = None"
proof (cases "findUserByUsername m name")
  case None then show ?thesis .
next
  case (Some u)
  then obtain k where "(k, u) \<in> set m" and n: "username u = name"
    using find_Some_mem by blast
  with assms(1) have "user_ok (k, u)" by (auto simp: registry_ok_def list_all_iff)
  then have "trim name = name" using n by (simp add: user_ok_def)
  with assms(2) show ?thesis by simp
qed

text \<open>
  C8. On every map the server reaches: a join with no name, or with a name that is empty
  once trimmed, is answered by the error that a username is required and changes nothing;
  a join with a name that has surrounding whitespace around something succeeds and stores
  the trimmed name under the socket.
\<close>

theorem user_join_names:
  fixes es :: "in_event list" and sock :: sid and now :: int
  defines "m \<equiv> registry_after es"
  shows "user_join m sock now None = (m, [(ToSocket sock, Error (lit ''Username is required''))])
     \<and> (trim name = [] \<longrightarrow>
          user_join m sock now (Some name) =
            (m, [(ToSocket sock, Error (lit ''Username is required''))]))
     \<and> (trim name \<noteq> [] \<and> trim name \<noteq> name \<longrightarrow>
          Map_get (fst (user_join m sock now (Some name))) sock =
            Some \<lparr>username = trim name, socketId = sock, joinTime = now\<rparr>
        \<and> inbox sock (snd (user_join m sock now (Some name))) =
            [OnlineUsers (getOnlineUsersList (fst (user_join m sock now (Some name)))),
             JoinSuccess (trim name) (getOnlineUsersList (fst (user_join m sock now (Some name))))])"
proof -
  have ok: "registry_ok m" unfolding m_def by (rule registry_after_ok)
  have a: "user_join m sock now None = (m, [(ToSocket sock, Error (lit ''Username is required''))])"
    by (simp add: user_join_def)
  have b: "user_join m sock now (Some name) =
            (m, [(ToSocket sock, Error (lit ''Username is required''))])" if "trim name = []"
    using that by (simp add: user_join_def)
  have c: "Map_get (fst (user_join m sock now (Some name))) sock =
            Some \<lparr>username = trim name, socketId = sock, joinTime = now\<rparr>
        \<and> inbox sock (snd (user_join m sock now (Some name))) =
            [OnlineUsers (getOnlineUsersList (fst (user_join m sock now (Some name)))),
             JoinSuccess (trim name) (getOnlineUsersList (fst (user_join m sock now (Some name))))]"
    if "trim name \<noteq> []" "trim name \<noteq> name"
  proof -
    have "findUserByUsername m name = None" using ok that(2) by (rule untrimmed_name_free)
    moreover have "name \<noteq> []" using that(2) by (auto simp: trim_def)
    ultimately show ?thesis using that(1)
      by (simp add: user_join_def Let_def update_conv' inbox_simps broadcastOnlineUsers_def)
  qed
  show ?thesis using a b c by blast
qed

theorem user_join_names_witness:
  "user_join (registry_after [UserJoin (lit ''B'') 5 (Some (lit ''Bob''))]) (lit ''A'') 10 (Some []) =
     (registry_after [UserJoin (lit ''B'') 5 (Some (lit ''Bob''))],
      [(ToSocket (lit ''A''), Error (lit ''Username is required''))])
 \<and> user_join (registry_after [UserJoin (lit ''B'') 5 (Some (lit ''Bob''))]) (lit ''A'') 10
       (Some (lit ''   '')) =
     (registry_after [UserJoin (lit ''B'') 5 (Some (lit ''Bob''))],
      [(ToSocket (lit ''A''), Error (lit ''Username is required''))])
 \<and> Map_get (fst (user_join (registry_after [UserJoin (lit ''B'') 5 (Some (lit ''Bob''))])
       (lit ''A'') 10 (Some (lit ''  Bob  '')))) (lit ''A'') =
     Some \<lparr>username = lit ''Bob'', socketId = lit ''A'', joinTime = 10\<rparr>"
proof -
  let ?es = "[UserJoin (lit ''B'') 5 (Some (lit ''Bob''))]"
  have t: "trim [] = []" "trim (lit ''   '') = []" "trim (lit ''  Bob  '') = lit ''Bob''"
    "lit ''Bob'' \<noteq> []" "lit ''Bob'' \<noteq> lit ''  Bob  ''"
    by (simp_all add: trim_def lit_def is_ws_def)
  from user_join_names [of ?es "lit ''A''" 10 "[]"]
       user_join_names [of ?es "lit ''A''" 10 "lit ''   ''"]
       user_join_names [of ?es "lit ''A''" 10 "lit ''  Bob  ''"] t
  show ?thesis by simp
qed

lemma delete_middle:
  "k \<notin> fst ` set pre \<Longrightarrow> k \<notin> fst ` set rest \<Longrightarrow>
   AList.delete k (pre @ (k, u) # rest) = pre @ rest"
  by (induction pre) auto

lemma cleanup_loop_filter:
  "distinct (map fst (pre @ rest)) \<Longrightarrow>
   fst (cleanup_loop now sockets rest (pre @ rest)) = pre @ filter (\<lambda>p. \<not> reaped now sockets p) rest
 \<and> length (snd (cleanup_loop now sockets rest (pre @ rest))) = length (filter (reaped now sockets) rest)
 \<and> (\<forall>e \<in> set (snd (cleanup_loop now sockets rest (pre @ rest))). \<exists>l. e = (ToAll, OnlineUsers l))"
proof (induction rest arbitrary: pre)
  case Nil
  then show ?case by simp
next
  case (Cons p rest)
  obtain k u where p: "p = (k, u)" by (cases p)
  show ?case
  proof (cases "reaped now sockets p")
    case True
    have d: "AList.delete k (pre @ (k, u) # rest) = pre @ rest"
      using Cons.prems p by (intro delete_middle) auto
    have "distinct (map fst (pre @ rest))" using Cons.prems by simp
    from Cons.IH [OF this] True d show ?thesis
      by (simp add: p reaped_def staleThreshold_def Let_def broadcastOnlineUsers_def)
  next
    case False
    have "distinct (map fst ((pre @ [p]) @ rest))" using Cons.prems by simp
    from Cons.IH [OF this] False show ?thesis
      by (auto simp: p reaped_def staleThreshold_def)
  qed
qed

lemma cleanup_loop_nth:
  "distinct (map fst (pre @ rest)) \<Longrightarrow> rest = xs @ p # ys \<Longrightarrow> reaped now sockets p \<Longrightarrow>
   snd (cleanup_loop now sockets rest (pre @ rest)) ! length (filter (reaped now sockets) xs) =
     (ToAll, OnlineUsers (map snd (pre @ filter (\<lambda>q. \<not> reaped now sockets q) xs @ ys)))"
proof (induction rest arbitrary: pre xs)
  case Nil
  then show ?case by simp
next
  case (Cons q rest)
  obtain k u where q: "q = (k, u)" by (cases q)
  have d: "AList.delete k (pre @ (k, u) # rest) = pre @ rest"
    using Cons.prems(1) q by (intro delete_middle) auto
  show ?case
  proof (cases xs)
    case Nil
    then have p: "p = (k, u)" and ys: "ys = rest" using Cons.prems(2) q by simp_all
    have "reaped now sockets (k, u)" using Cons.prems(3) p by simp
    then show ?thesis using d unfolding Nil p ys q
      by (simp add: reaped_def staleThreshold_def Let_def broadcastOnlineUsers_def
          getOnlineUsersList_def)
  next
    case (Cons q' xs')
    then have q': "q' = q" and rest: "rest = xs' @ p # ys" using Cons.prems(2) by simp_all
    show ?thesis
    proof (cases "reaped now sockets q")
      case True
      have "distinct (map fst (pre @ rest))" using Cons.prems(1) by simp
      from Cons.IH [OF this rest Cons.prems(3)] True d show ?thesis
        by (simp add: Cons q' q reaped_def staleThreshold_def Let_def)
    next
      case False
      have "distinct (map fst ((pre @ [q]) @ rest))" using Cons.prems(1) by simp
      from Cons.IH [OF this rest Cons.prems(3)] False show ?thesis
        by (auto simp: Cons q' q reaped_def staleThreshold_def)
    qed
  qed
qed

text \<open>
  C9. One sweep removes exactly the users who joined more than 300000 ms ago and whose
  socket is unknown or not connected, and keeps all others, as they are and in their order.
  It sends one \<open>online_users\<close> broadcast for each user it removes and nothing else; the
  broadcast for a removed user carries the list of the map as it is right after that
  removal: the users before it that the sweep keeps, and all users after it.
\<close>

theorem cleanup_removes_stale_dead:
  assumes "distinct (map fst m)"
  shows "fst (cleanup m now sockets) =
           filter (\<lambda>p. \<not> (now - joinTime (snd p) > 300000 \<and> gone sockets (fst p))) m
       \<and> length (snd (cleanup m now sockets)) =
           length (filter (\<lambda>p. now - joinTime (snd p) > 300000 \<and> gone sockets (fst p)) m)
       \<and> (\<forall>e \<in> set (snd (cleanup m now sockets)). \<exists>l. e = (ToAll, OnlineUsers l))
       \<and> (\<forall>xs p ys. m = xs @ p # ys \<and> now - joinTime (snd p) > 300000 \<and> gone sockets (fst p) \<longrightarrow>
            snd (cleanup m now sockets)
              ! length (filter (\<lambda>p. now - joinTime (snd p) > 300000 \<and> gone sockets (fst p)) xs) =
            (ToAll, OnlineUsers (map snd
               (filter (\<lambda>p. \<not> (now - joinTime (snd p) > 300000 \<and> gone sockets (fst p))) xs @ ys))))"
proof -
  have r: "reaped now sockets = (\<lambda>p. now - joinTime (snd p) > 300000 \<and> gone sockets (fst p))"
    by (simp add: reaped_def fun_eq_iff)
  have a: "distinct (map fst ([] @ m))" using assms by simp
  show ?thesis
    using cleanup_loop_filter [OF a, of now sockets] cleanup_loop_nth [OF a, of _ _ _ now sockets]
    unfolding r cleanup_def by simp
qed



theorem cleanup_removes_stale_dead_witness:
  "cleanup
      [(lit ''A'', \<lparr>username = lit ''alice'', socketId = lit ''A'', joinTime = 0\<rparr>),
       (lit ''B'', \<lparr>username = lit ''bob'', socketId = lit ''B'', joinTime = 0\<rparr>),
       (lit ''C'', \<lparr>username = lit ''carol'', socketId = lit ''C'', joinTime = 100000\<rparr>),
       (lit ''D'', \<lparr>username = lit ''dave'', socketId = lit ''D'', joinTime = 1\<rparr>),
       (lit ''E'', \<lparr>username = lit ''erin'', socketId = lit ''E'', joinTime = 0\<rparr>)]
      300001 ((\<lambda>k. None)(lit ''A'' := Some False, lit ''B'' := Some True)) =
     ([(lit ''B'', \<lparr>username = lit ''bob'', socketId = lit ''B'', joinTime = 0\<rparr>),
       (lit ''C'', \<lparr>username = lit ''carol'', socketId = lit ''C'', joinTime = 100000\<rparr>),
       (lit ''D'', \<lparr>username = lit ''dave'', socketId = lit ''D'', joinTime = 1\<rparr>)],
      [(ToAll, OnlineUsers
          [\<lparr>username = lit ''bob'', socketId = lit ''B'', joinTime = 0\<rparr>,
           \<lparr>username = lit ''carol'', socketId = lit ''C'', joinTime = 100000\<rparr>,
           \<lparr>username = lit ''dave'', socketId = lit ''D'', joinTime = 1\<rparr>,
           \<lparr>username = lit ''erin'', socketId = lit ''E'', joinTime = 0\<rparr>]),
       (ToAll, OnlineUsers
          [\<lparr>username = lit ''bob'', socketId = lit ''B'', joinTime = 0\<rparr>,
           \<lparr>username = lit ''carol'', socketId = lit ''C'', joinTime = 100000\<rparr>,
           \<lparr>username = lit ''dave'', socketId = lit ''D'', joinTime = 1\<rparr>])])"
proof -
  let ?a = "(lit ''A'', \<lparr>username = lit ''alice'', socketId = lit ''A'', joinTime = 0\<rparr>)"
  let ?b = "(lit ''B'', \<lparr>username = lit ''bob'', socketId = lit ''B'', joinTime = 0\<rparr>)"
  let ?c = "(lit ''C'', \<lparr>username = lit ''carol'', socketId = lit ''C'', joinTime = 100000\<rparr>)"
  let ?d = "(lit ''D'', \<lparr>username = lit ''dave'', socketId = lit ''D'', joinTime = 1\<rparr>)"
  let ?e = "(lit ''E'', \<lparr>username = lit ''erin'', socketId = lit ''E'', joinTime = 0\<rparr>)"
  let ?m = "[?a, ?b, ?c, ?d, ?e]"
  let ?s = "(\<lambda>k. None)(lit ''A'' := Some False, lit ''B'' := Some True)"
  let ?r = "cleanup ?m 300001 ?s"
  have d: "distinct (map fst ?m)" by (simp add: lit_def)
  note t = cleanup_removes_stale_dead [OF d, of 300001 ?s]
  have g: "gone ?s (lit ''A'')" "\<not> gone ?s (lit ''B'')" "gone ?s (lit ''C'')"
    "gone ?s (lit ''D'')" "gone ?s (lit ''E'')"
    by (simp_all add: gone_def lit_def)
  have f: "fst ?r = [?b, ?c, ?d]" using t [THEN conjunct1] g by simp
  have l: "length (snd ?r) = 2" using t [THEN conjunct2, THEN conjunct1] g by simp
  note n = t [THEN conjunct2, THEN conjunct2, THEN conjunct2, THEN spec, THEN spec, THEN spec,
      THEN mp]
  have n0: "snd ?r ! 0 = (ToAll, OnlineUsers (map snd [?b, ?c, ?d, ?e]))"
    using n [of "[]" ?a "[?b, ?c, ?d, ?e]"] g by simp
  have n1: "snd ?r ! 1 = (ToAll, OnlineUsers (map snd [?b, ?c, ?d]))"
    using n [of "[?a, ?b, ?c, ?d]" ?e "[]"] g by simp
  have "snd ?r = [snd ?r ! 0, snd ?r ! 1]"
    using l by (cases "snd ?r"; cases "tl (snd ?r)") auto
  then have "snd ?r = [(ToAll, OnlineUsers (map snd [?b, ?c, ?d, ?e])),
                       (ToAll, OnlineUsers (map snd [?b, ?c, ?d]))]"
    using n0 n1 by simp
  with f show ?thesis by (simp add: prod_eq_iff)
qed


section \<open>Names, senders and sessions\<close>

text \<open>A join under a name that the lookup finds is refused, and the map stays as it is.\<close>

lemma user_join_taken:
  "findUserByUsername m name = Some u \<Longrightarrow> trim name \<noteq> [] \<Longrightarrow>
   user_join m sock now (Some name) =
     (m, [(ToSocket sock, Error (lit ''Username is already taken''))])"
  by (auto simp: user_join_def trim_def)

text \<open>
  C1. The check for a taken name compares the raw name, the map stores the trimmed one:
  after alice has joined, a join as alice with a leading space is accepted, and the map
  holds two users named alice.
\<close>

theorem untrimmed_join_duplicates_name:
  "registry_after [UserJoin (lit ''A'') 10 (Some (lit ''alice'')),
                   UserJoin (lit ''B'') 20 (Some (lit '' alice''))] =
     [(lit ''A'', \<lparr>username = lit ''alice'', socketId = lit ''A'', joinTime = 10\<rparr>),
      (lit ''B'', \<lparr>username = lit ''alice'', socketId = lit ''B'', joinTime = 20\<rparr>)]
 \<and> inbox (lit ''B'')
       (snd (user_join (registry_after [UserJoin (lit ''A'') 10 (Some (lit ''alice''))])
          (lit ''B'') 20 (Some (lit '' alice'')))) =
     [OnlineUsers [\<lparr>username = lit ''alice'', socketId = lit ''A'', joinTime = 10\<rparr>,
                   \<lparr>username = lit ''alice'', socketId = lit ''B'', joinTime = 20\<rparr>],
      JoinSuccess (lit ''alice'')
                  [\<lparr>username = lit ''alice'', socketId = lit ''A'', joinTime = 10\<rparr>,
                   \<lparr>username = lit ''alice'', socketId = lit ''B'', joinTime = 20\<rparr>]]"
  by (simp add: registry_after_def user_join_def Let_def lit_def trim_def is_ws_def inbox_simps
      broadcastOnlineUsers_def getOnlineUsersList_def)

text \<open>
  C4. A sweep that removes alice sends the remaining clients the \<open>online_users\<close> list and no
  \<open>user_left\<close>; the disconnect of alice, on the same map, sends both.
\<close>

theorem cleanup_sends_no_user_left:
  "cleanup [(lit ''A'', \<lparr>username = lit ''alice'', socketId = lit ''A'', joinTime = 0\<rparr>),
            (lit ''B'', \<lparr>username = lit ''bob'', socketId = lit ''B'', joinTime = 300000\<rparr>)]
       300001 ((\<lambda>k. None)(lit ''B'' := Some True)) =
     ([(lit ''B'', \<lparr>username = lit ''bob'', socketId = lit ''B'', joinTime = 300000\<rparr>)],
      [(ToAll, OnlineUsers [\<lparr>username = lit ''bob'', socketId = lit ''B'', joinTime = 300000\<rparr>])])
 \<and> disconnect [(lit ''A'', \<lparr>username = lit ''alice'', socketId = lit ''A'', joinTime = 0\<rparr>),
            (lit ''B'', \<lparr>username = lit ''bob'', socketId = lit ''B'', joinTime = 300000\<rparr>)]
       (lit ''A'') =
     ([(lit ''B'', \<lparr>username = lit ''bob'', socketId = lit ''B'', joinTime = 300000\<rparr>)],
      [(ToOthers (lit ''A''), UserLeft (lit ''alice'') (lit ''A'')),
       (ToAll, OnlineUsers [\<lparr>username = lit ''bob'', socketId = lit ''B'', joinTime = 300000\<rparr>])])"
  by (simp add: cleanup_def disconnect_def Let_def lit_def gone_def staleThreshold_def
      broadcastOnlineUsers_def getOnlineUsersList_def)

text \<open>
  C2, as stated, fails for the legacy upload: a socket that never joined sends an image to
  bob, and bob receives it.
\<close>

theorem legacy_upload_from_unjoined_counterexample:
  "Map_get [(lit ''B'', \<lparr>username = lit ''bob'', socketId = lit ''B'', joinTime = 10\<rparr>)]
       (lit ''X'') = None
 \<and> inbox (lit ''B'')
      (snd (image_upload
         [(lit ''B'', \<lparr>username = lit ''bob'', socketId = lit ''B'', joinTime = 10\<rparr>)]
         (lit ''X'') [1, 2] (lit ''bob''))) = [GetImage [1, 2]]"
  by (simp add: image_upload_def lit_def inbox_simps)

text \<open>
  C2, amended. When the sender has not joined, \<open>media_upload\<close> and \<open>send_message\<close> leave the
  map as it is and send only the error asking to join first, to the sender, so that no
  other socket receives anything; \<open>typing_start\<close> and \<open>typing_stop\<close> send nothing. The legacy
  upload does not look at its sender: it sends its one \<open>get_image\<close> whoever the sender is.
\<close>

theorem unjoined_sender_gets_only_error:
  assumes "Map_get m sock = None"
  shows "media_upload m sock now buf targetUser mediaType filename =
           (m, [(ToSocket sock, Error (lit ''Please join with a username first''))])
       \<and> send_message m sock now1 now2 targetUser message =
           (m, [(ToSocket sock, Error (lit ''Please join with a username first''))])
       \<and> typing_start m sock targetUser = (m, [])
       \<and> typing_stop m sock targetUser = (m, [])
       \<and> (\<forall>c. c \<noteq> sock \<longrightarrow>
             inbox c (snd (media_upload m sock now buf targetUser mediaType filename)) = []
           \<and> inbox c (snd (send_message m sock now1 now2 targetUser message)) = [])
       \<and> image_upload m sock buf ident = image_upload m other buf ident
       \<and> (\<exists>room. image_upload m sock buf ident = (m, [(ToRoom room, GetImage buf)]))"
  using assms
  by (auto simp: media_upload_def send_message_def typing_start_def typing_stop_def typing_def
      image_upload_def inbox_simps split: option.splits)

theorem unjoined_sender_gets_only_error_witness:
  "media_upload [(lit ''B'', \<lparr>username = lit ''bob'', socketId = lit ''B'', joinTime = 10\<rparr>)]
       (lit ''X'') 30 [1, 2] (Some (lit ''bob'')) None None =
     ([(lit ''B'', \<lparr>username = lit ''bob'', socketId = lit ''B'', joinTime = 10\<rparr>)],
      [(ToSocket (lit ''X''), Error (lit ''Please join with a username first''))])
 \<and> send_message [(lit ''B'', \<lparr>username = lit ''bob'', socketId = lit ''B'', joinTime = 10\<rparr>)]
       (lit ''X'') 30 31 (Some (lit ''bob'')) (Some (lit ''hi'')) =
     ([(lit ''B'', \<lparr>username = lit ''bob'', socketId = lit ''B'', joinTime = 10\<rparr>)],
      [(ToSocket (lit ''X''), Error (lit ''Please join with a username first''))])
 \<and> typing_start [(lit ''B'', \<lparr>username = lit ''bob'', socketId = lit ''B'', joinTime = 10\<rparr>)]
       (lit ''X'') (Some (lit ''bob'')) =
     ([(lit ''B'', \<lparr>username = lit ''bob'', socketId = lit ''B'', joinTime = 10\<rparr>)], [])
 \<and> inbox (lit ''B'') (snd (send_message
       [(lit ''B'', \<lparr>username = lit ''bob'', socketId = lit ''B'', joinTime = 10\<rparr>)]
       (lit ''X'') 30 31 (Some (lit ''bob'')) (Some (lit ''hi'')))) = []"
proof -
  let ?m = "[(lit ''B'', \<lparr>username = lit ''bob'', socketId = lit ''B'', joinTime = 10\<rparr>)]"
  have a: "Map_get ?m (lit ''X'') = None" by (simp add: lit_def)
  have b: "lit ''B'' \<noteq> lit ''X''" by (simp add: lit_def)
  from unjoined_sender_gets_only_error [OF a, of 30 "[1, 2]" "Some (lit ''bob'')" None None 30 31
      "Some (lit ''hi'')"] b
  show ?thesis by (simp add: inbox_simps)
qed

text \<open>
  C3, as stated, fails: a second join from the socket of alice, under the free name carol,
  replaces her record by one named carol with the new join time.
\<close>

theorem rejoin_replaces_session_counterexample:
  "Map_get (registry_after [UserJoin (lit ''A'') 10 (Some (lit ''alice''))]) (lit ''A'') =
     Some \<lparr>username = lit ''alice'', socketId = lit ''A'', joinTime = 10\<rparr>
 \<and> Map_get (fst (user_join (registry_after [UserJoin (lit ''A'') 10 (Some (lit ''alice''))])
       (lit ''A'') 20 (Some (lit ''carol'')))) (lit ''A'') =
     Some \<lparr>username = lit ''carol'', socketId = lit ''A'', joinTime = 20\<rparr>"
  by (simp add: registry_after_def user_join_def Let_def lit_def trim_def is_ws_def)

lemma cleanup_loop_get:
  "Map_get (fst (cleanup_loop now sockets rest m)) c = Map_get m c
 \<or> Map_get (fst (cleanup_loop now sockets rest m)) c = None"
  by (induction now sockets rest m rule: cleanup_loop.induct)
     (auto simp: Let_def delete_conv')

lemma user_join_get:
  "Map_get (fst (user_join m sock now uname)) c = Map_get m c
 \<or> (sock = c \<and> (\<exists>name. uname = Some name \<and> trim name \<noteq> [] \<and> findUserByUsername m name = None
       \<and> Map_get (fst (user_join m sock now uname)) c =
           Some \<lparr>username = trim name, socketId = c, joinTime = now\<rparr>))"
  by (auto simp: user_join_def Let_def update_conv' split: option.splits)

lemma free_trimmed_name_free:
  assumes "registry_ok m" and "findUserByUsername m (trim name) = None"
  shows "findUserByUsername m name = None"
proof (cases "trim name = name")
  case True
  with assms(2) show ?thesis by simp
next
  case False
  with assms(1) show ?thesis by (intro untrimmed_name_free)
qed

text \<open>
  C3, amended. The record of a joined socket \<open>c\<close> is left as it is by every event that is
  neither a join from \<open>c\<close>, nor the disconnect of \<open>c\<close>, nor a sweep; the disconnect and the
  sweep leave it or remove it. A join from \<open>c\<close> leaves it when the name is absent or blank
  and when the name is the name of a user, the one of \<open>c\<close> included. On a well-formed map,
  as every map the server reaches is, a join from \<open>c\<close> with a name that is not blank and
  whose trimmed form no user has replaces the record by one of the trimmed name and the
  new join time.
\<close>

theorem session_changed_only_by_own_join:
  assumes "Map_get m c = Some u"
  shows "(\<not> own_join c e \<and> \<not> may_remove c e \<longrightarrow> Map_get (fst (handle m e)) c = Some u)
       \<and> (\<not> own_join c e \<longrightarrow>
            Map_get (fst (handle m e)) c = Some u \<or> Map_get (fst (handle m e)) c = None)
       \<and> Map_get (fst (user_join m c now None)) c = Some u
       \<and> (trim name = [] \<longrightarrow> Map_get (fst (user_join m c now (Some name))) c = Some u)
       \<and> (findUserByUsername m name \<noteq> None \<longrightarrow>
            Map_get (fst (user_join m c now (Some name))) c = Some u)
       \<and> (registry_ok m \<and> trim name \<noteq> [] \<and> findUserByUsername m (trim name) = None \<longrightarrow>
            Map_get (fst (user_join m c now (Some name))) c =
              Some \<lparr>username = trim name, socketId = c, joinTime = now\<rparr>)"
proof -
  have a: "Map_get (fst (handle m e)) c = Some u" if "\<not> own_join c e" "\<not> may_remove c e"
  proof (cases e)
    case (UserJoin sock t uname')
    then show ?thesis using that assms user_join_get [of m sock t uname' c] by auto
  next
    case (Disconnect sock)
    then show ?thesis using that assms
      by (auto simp: disconnect_def Let_def delete_conv' split: option.splits)
  qed (use that assms in \<open>auto simp: media_upload_def image_upload_def typing_start_def
        typing_stop_def typing_def send_message_def get_user_info_def ping_def Let_def
        split: option.splits\<close>)
  have b: "Map_get (fst (handle m e)) c = Some u \<or> Map_get (fst (handle m e)) c = None"
    if "\<not> own_join c e"
  proof (cases "may_remove c e")
    case False
    with that a show ?thesis by simp
  next
    case True
    then show ?thesis using assms cleanup_loop_get [of _ _ m m c]
      by (cases e) (auto simp: disconnect_def cleanup_def Let_def delete_conv' split: option.splits)
  qed
  have n: "Map_get (fst (user_join m c now None)) c = Some u"
    using assms by (simp add: user_join_def)
  have bl: "Map_get (fst (user_join m c now (Some name))) c = Some u" if "trim name = []"
    using assms that by (simp add: user_join_def)
  have tk: "Map_get (fst (user_join m c now (Some name))) c = Some u"
    if "findUserByUsername m name \<noteq> None"
    using assms that by (auto simp: user_join_def)
  have rp: "Map_get (fst (user_join m c now (Some name))) c =
              Some \<lparr>username = trim name, socketId = c, joinTime = now\<rparr>"
    if "registry_ok m" "trim name \<noteq> []" "findUserByUsername m (trim name) = None"
  proof -
    have "findUserByUsername m name = None" using that(1,3) by (rule free_trimmed_name_free)
    moreover have "name \<noteq> []" using that(2) by (auto simp: trim_def)
    ultimately show ?thesis using that(2) by (simp add: user_join_def Let_def update_conv')
  qed
  show ?thesis using a b n bl tk rp by blast
qed

theorem session_changed_only_by_own_join_witness:
  "Map_get (fst (handle
      (registry_after [UserJoin (lit ''A'') 10 (Some (lit ''alice''))])
      (UserJoin (lit ''B'') 20 (Some (lit ''bob''))))) (lit ''A'') =
     Some \<lparr>username = lit ''alice'', socketId = lit ''A'', joinTime = 10\<rparr>
 \<and> Map_get (fst (user_join
      (registry_after [UserJoin (lit ''A'') 10 (Some (lit ''alice''))])
      (lit ''A'') 20 (Some (lit ''alice'')))) (lit ''A'') =
     Some \<lparr>username = lit ''alice'', socketId = lit ''A'', joinTime = 10\<rparr>
 \<and> Map_get (fst (user_join
      (registry_after [UserJoin (lit ''A'') 10 (Some (lit ''alice''))])
      (lit ''A'') 20 (Some (lit '' carol  '')))) (lit ''A'') =
     Some \<lparr>username = lit ''carol'', socketId = lit ''A'', joinTime = 20\<rparr>"
proof -
  let ?a = "\<lparr>username = lit ''alice'', socketId = lit ''A'', joinTime = 10\<rparr>"
  let ?m = "registry_after [UserJoin (lit ''A'') 10 (Some (lit ''alice''))]"
  let ?e = "UserJoin (lit ''B'') 20 (Some (lit ''bob''))"
  have m: "?m = [(lit ''A'', ?a)]"
    by (simp add: registry_after_def user_join_def Let_def lit_def trim_def is_ws_def)
  have g: "Map_get ?m (lit ''A'') = Some ?a" unfolding m by simp
  have ok: "registry_ok ?m" by (rule registry_after_ok)
  have n: "\<not> own_join (lit ''A'') ?e" "\<not> may_remove (lit ''A'') ?e"
    by (simp_all add: lit_def)
  have f: "findUserByUsername ?m (lit ''alice'') \<noteq> None" unfolding m by simp
  have t: "trim (lit '' carol  '') = lit ''carol''" "lit ''carol'' \<noteq> []"
    by (simp_all add: lit_def trim_def is_ws_def)
  have fc: "findUserByUsername ?m (trim (lit '' carol  '')) = None"
    unfolding m t by (simp add: lit_def)
  from session_changed_only_by_own_join [OF g, of ?e 20 "lit ''alice''"]
       session_changed_only_by_own_join [OF g, of ?e 20 "lit '' carol  ''"]
       n ok f t fc
  show ?thesis by simp
qed

end
